theory Spec2Isabelle
  imports Complex_Main "HOL-Library.Sublist" "HOL-Library.Multiset"
begin

section \<open>Go values used by the packages\<close>

text \<open>
  A Go \<open>error\<close> is kept by its message. Go's \<open>int\<close> is a 64-bit two's complement
  integer: \<open>int_wrap\<close> brings the mathematical result of \<open>+\<close> and \<open>-\<close> back into
  the range \<open>-2^63 .. 2^63 - 1\<close>, as the machine does.
\<close>

datatype error = Err string

definition int_wrap :: "int \<Rightarrow> int" where
  "int_wrap x = (x + 2 ^ 63) mod 2 ^ 64 - 2 ^ 63"

section \<open>Go's float64\<close>

text \<open>
  A \<open>float64\<close> is an IEEE 754 binary64 value: not-a-number, an infinity with its sign,
  or a finite value with its sign bit (\<open>True\<close> for minus) and its magnitude, a real
  number on the binary64 grid (53 significant bits, exponents from -1022 to 1023,
  subnormals in steps of \<open>2^-1074\<close>); zero has a sign as well.

  \<open>round64\<close> is the rounding every operation ends with: to the nearest value of the
  grid, a tie to the one with an even significand, and to infinity when the rounded
  magnitude reaches \<open>2^1024\<close>. \<open>ilog2 a\<close> is the exponent \<open>e\<close> with
  \<open>2^e \<le> a < 2^(e+1)\<close>, found by counting bits. \<open>fmul\<close> is the operator \<open>*\<close>.
\<close>

datatype float64 = NaN | Inf bool | Finite bool real

definition pow2 :: "int \<Rightarrow> real" where
  "pow2 e = (if 0 \<le> e then 2 ^ nat e else 1 / 2 ^ nat (- e))"

fun bit_length :: "nat \<Rightarrow> nat" where
  "bit_length n = (if n = 0 then 0 else Suc (bit_length (n div 2)))"

declare bit_length.simps [simp del]

definition ilog2 :: "real \<Rightarrow> int" where
  "ilog2 a = (if 1 \<le> a then int (bit_length (nat \<lfloor>a\<rfloor>)) - 1
              else - int (bit_length (nat (\<lceil>1 / a\<rceil> - 1))))"

definition round_half_even :: "real \<Rightarrow> int" where
  "round_half_even q =
     (let f = \<lfloor>q\<rfloor>; r = q - of_int f
      in if r < 1 / 2 then f else if 1 / 2 < r then f + 1 else if even f then f else f + 1)"

definition round_mag :: "real \<Rightarrow> real" where
  "round_mag a =
     (if a = 0 then 0
      else (let e = max (ilog2 a) (- 1022); ulp = pow2 (e - 52)
            in of_int (round_half_even (a / ulp)) * ulp))"

definition round64 :: "bool \<Rightarrow> real \<Rightarrow> float64" where
  "round64 s a =
     (let r = round_mag a in if r \<noteq> 0 \<and> 1024 \<le> ilog2 r then Inf s else Finite s r)"

fun fmul :: "float64 \<Rightarrow> float64 \<Rightarrow> float64" where
  "fmul NaN y = NaN"
| "fmul x NaN = NaN"
| "fmul (Inf s) (Inf t) = Inf (s \<noteq> t)"
| "fmul (Inf s) (Finite t b) = (if b = 0 then NaN else Inf (s \<noteq> t))"
| "fmul (Finite s a) (Inf t) = (if a = 0 then NaN else Inf (s \<noteq> t))"
| "fmul (Finite s a) (Finite t b) = round64 (s \<noteq> t) (a * b)"

section \<open>pkg/backupify: the page request and the page response\<close>

text \<open>
  The request envelope \<open>UserPayload\<close> and the response envelope \<open>Users\<close> with the
  fields \<open>GetAllUsers\<close> and \<open>convertUserBytes\<close> read and write. Field names that
  occur in two structs carry the struct's name as a prefix.
\<close>

record Search =
  Value :: string
  Regex :: bool

record Column =
  Column_Data :: string
  Column_Name :: string
  Searchable :: bool
  Orderable :: bool
  Column_Search :: Search

record Order =
  Order_Column :: string
  Dir :: string

record UserPayload =
  Draw :: string
  Columns :: "Column list"
  Order :: "Order list"
  Start :: int
  Length :: int
  Payload_Search :: Search
  AppType :: string

record User =
  Name :: string
  UsedBytes :: string
  UsedBytesFloat :: float64

record Users =
  Users_Draw :: int
  RecordsTotal :: int
  RecordsFiltered :: int
  Data :: "User list"

text \<open>
  \<open>do[Users](c.Client, "POST", url, nil, userPayload)\<close>: the provider answers the
  \<open>k\<close>-th request of a run (counted from 0) with a decoded page or with an error.
\<close>

type_synonym provider = "nat \<Rightarrow> UserPayload \<Rightarrow> error + Users"

definition empty_Search :: Search where
  "empty_Search = \<lparr>Value = [], Regex = False\<rparr>"

definition data_Column :: "string \<Rightarrow> Column" where
  "data_Column d =
     \<lparr>Column_Data = d, Column_Name = [], Searchable = True, Orderable = True,
      Column_Search = empty_Search\<rparr>"

text \<open>The payload literal of \<open>GetAllUsers\<close>: \<open>Start: 0, Length: 75\<close>.\<close>

definition userPayload :: UserPayload where
  "userPayload =
     \<lparr>Draw = ''1'',
      Columns = [data_Column ''name'', data_Column ''email'', data_Column ''latestSnap'',
                 data_Column ''usedBytes''],
      Order = [\<lparr>Order_Column = ''1'', Dir = ''asc''\<rparr>],
      Start = 0,
      Length = 75,
      Payload_Search = empty_Search,
      AppType = ''GoogleDrive''\<rparr>"

text \<open>\<open>var allUsers Users\<close>: the zero value.\<close>

definition zero_Users :: Users where
  "zero_Users = \<lparr>Users_Draw = 0, RecordsTotal = 0, RecordsFiltered = 0, Data = []\<rparr>"

section \<open>pkg/backupify: the pagination loop of GetAllUsers\<close>

text \<open>
  The \<open>for { ... }\<close> loop has no bound of its own, so the model counts iterations:
  \<open>Running\<close> is the state after the given number of iterations when the loop has not
  left by then. \<open>Failed\<close> is the branch \<open>err != nil\<close>, \<open>Done\<close> is the \<open>break\<close>.
  Every result carries the requests issued so far, oldest first.
\<close>

datatype loop_result =
    Done Users "UserPayload list"
  | Failed error "UserPayload list"
  | Running UserPayload Users "UserPayload list"

fun page_loop :: "nat \<Rightarrow> provider \<Rightarrow> UserPayload \<Rightarrow> Users \<Rightarrow> UserPayload list \<Rightarrow> loop_result" where
  "page_loop 0 p pl allUsers reqs = Running pl allUsers reqs"
| "page_loop (Suc n) p pl allUsers reqs =
     (case p (length reqs) pl of
        Inl err \<Rightarrow> Failed err (reqs @ [pl])
      | Inr users \<Rightarrow>
          (let remainingUsers = int_wrap (RecordsTotal users - Length pl);
               pl1 = (if remainingUsers < Length pl then pl\<lparr>Length := remainingUsers\<rparr> else pl)
           in if Start pl1 \<le> RecordsTotal users
              then page_loop n p (pl1\<lparr>Start := int_wrap (Start pl1 + Length pl1)\<rparr>)
                     (allUsers\<lparr>Data := Data allUsers @ Data users\<rparr>) (reqs @ [pl])
              else Done (allUsers\<lparr>Users_Draw := Users_Draw users,
                                  RecordsTotal := RecordsTotal users,
                                  RecordsFiltered := RecordsFiltered users\<rparr>)
                        (reqs @ [pl])))"

text \<open>The requests a run has issued, whatever its state.\<close>

fun requests :: "loop_result \<Rightarrow> UserPayload list" where
  "requests (Done u reqs) = reqs"
| "requests (Failed e reqs) = reqs"
| "requests (Running pl u reqs) = reqs"

section \<open>Go's strings package, as far as the code calls it\<close>

text \<open>
  The standard-library functions the three packages call, on byte strings.
  \<open>Index\<close> is the position of the first occurrence of \<open>substr\<close>, or \<open>-1\<close>;
  \<open>slice_to s i\<close> is the slice expression \<open>s[:i]\<close>, whose bounds check panics at run
  time when \<open>i\<close> is negative or beyond the length (\<open>None\<close>).
\<close>

fun Index :: "string \<Rightarrow> string \<Rightarrow> int" where
  "Index [] substr = (if substr = [] then 0 else - 1)"
| "Index (c # s) substr =
     (if prefix substr (c # s) then 0
      else (let i = Index s substr in if i < 0 then - 1 else i + 1))"

definition Contains :: "string \<Rightarrow> string \<Rightarrow> bool" where
  "Contains s substr = (0 \<le> Index s substr)"

definition slice_to :: "string \<Rightarrow> int \<Rightarrow> string option" where
  "slice_to s i = (if 0 \<le> i \<and> i \<le> int (length s) then Some (take (nat i) s) else None)"

definition TrimPrefix :: "string \<Rightarrow> string \<Rightarrow> string" where
  "TrimPrefix s pre = (if prefix pre s then drop (length pre) s else s)"

definition TrimSuffix :: "string \<Rightarrow> string \<Rightarrow> string" where
  "TrimSuffix s suf = (if suffix suf s then take (length s - length suf) s else s)"

definition Trim :: "string \<Rightarrow> string \<Rightarrow> string" where
  "Trim s cutset =
     rev (dropWhile (\<lambda>c. c \<in> set cutset) (rev (dropWhile (\<lambda>c. c \<in> set cutset) s)))"

text \<open>
  \<open>fmt.Sprintf\<close> for templates whose only verb is \<open>%s\<close> and whose operands are
  strings: each \<open>%s\<close> is replaced by the next operand, and by \<open>%!s(MISSING)\<close> when
  the operands have run out.
\<close>

fun Sprintf :: "string \<Rightarrow> string list \<Rightarrow> string" where
  "Sprintf [] args = []"
| "Sprintf [c] args = [c]"
| "Sprintf (c # d # rest) args =
     (if c = CHR ''%'' \<and> d = CHR ''s''
      then (case args of
              [] \<Rightarrow> ''%!s(MISSING)'' @ Sprintf rest []
            | a # args' \<Rightarrow> a @ Sprintf rest args')
      else c # Sprintf (d # rest) args)"

section \<open>pkg/backupify: convertUserBytes\<close>

text \<open>
  One task per record (the body of the \<open>go func\<close>). \<open>strconv.ParseFloat\<close> is the
  standard library's and is a parameter of the model: whatever it returns for the numeric
  part, a value or an error, is what the task goes on with. A task ends in one of three ways: the slice
  expression panics (\<open>TaskPanic\<close>), the parse fails and the error is printed
  (\<open>ConversionError\<close>, the record untouched), or the \<open>switch\<close> runs and the
  "Converted" line is printed (\<open>Converted\<close>, with the record as the switch leaves it).
\<close>

datatype task_result =
    Converted User
  | ConversionError error User
  | TaskPanic

definition convert_task ::
  "(string \<Rightarrow> error + float64) \<Rightarrow> float64 \<Rightarrow> float64 \<Rightarrow> float64 \<Rightarrow> float64 \<Rightarrow> User
     \<Rightarrow> task_result" where
  "convert_task ParseFloat kilobyte megabyte gigabyte terabyte user =
     (case slice_to (UsedBytes user) (Index (UsedBytes user) '' '') of
        None \<Rightarrow> TaskPanic
      | Some numeric \<Rightarrow>
          (case ParseFloat numeric of
             Inl err \<Rightarrow> ConversionError err user
           | Inr usedBytes \<Rightarrow>
               Converted
                 (if Contains (UsedBytes user) ''bytes'' then user\<lparr>UsedBytesFloat := usedBytes\<rparr>
                  else if Contains (UsedBytes user) ''KB''
                    then user\<lparr>UsedBytesFloat := fmul usedBytes kilobyte\<rparr>
                  else if Contains (UsedBytes user) ''MB''
                    then user\<lparr>UsedBytesFloat := fmul usedBytes megabyte\<rparr>
                  else if Contains (UsedBytes user) ''GB''
                    then user\<lparr>UsedBytesFloat := fmul usedBytes gigabyte\<rparr>
                  else if Contains (UsedBytes user) ''TB''
                    then user\<lparr>UsedBytesFloat := fmul usedBytes terabyte\<rparr>
                  else user)))"

fun task_user :: "User \<Rightarrow> task_result \<Rightarrow> User" where
  "task_user u (Converted u') = u'"
| "task_user u (ConversionError e u') = u'"
| "task_user u TaskPanic = u"

text \<open>The lines a task prints: an error line, or a "Converted" line.\<close>

datatype log_line =
    ErrorConverting string error
  | ConvertedTo string float64 string

fun task_log :: "task_result \<Rightarrow> log_line list" where
  "task_log (Converted u) = [ConvertedTo (UsedBytes u) (UsedBytesFloat u) (Name u)]"
| "task_log (ConversionError e u) = [ErrorConverting (Name u) e]"
| "task_log TaskPanic = []"

text \<open>
  The batch. The tasks write disjoint records and only read the unit constants, so each
  record ends as its own task leaves it, whatever the schedule; the lines are printed in
  no fixed order and are kept as a multiset. When no task panics, \<open>wg.Wait()\<close> returns
  and the caller goes on with the records (\<open>Completed\<close>). A panic in a task is not
  recovered: the program dies of it (\<open>Crashed\<close>). How far the other tasks and the
  caller get before the program is gone is left open: the deferred \<open>wg.Done()\<close> of
  the panicking task may still release \<open>wg.Wait()\<close>.
\<close>

datatype convert_result =
    Completed Users "log_line multiset"
  | Crashed

definition convertUserBytes ::
  "(string \<Rightarrow> error + float64) \<Rightarrow> Users \<Rightarrow> bool \<Rightarrow> convert_result" where
  "convertUserBytes ParseFloat users useBinary =
     (let kilobyte = (if useBinary then Finite False 1024 else Finite False 1000);
          megabyte = fmul kilobyte kilobyte;
          gigabyte = fmul megabyte kilobyte;
          terabyte = fmul gigabyte kilobyte;
          results = map (convert_task ParseFloat kilobyte megabyte gigabyte terabyte) (Data users)
      in if TaskPanic \<in> set results then Crashed
         else Completed (users\<lparr>Data := map2 task_user (Data users) results\<rparr>)
                (mset (concat (map task_log results))))"

section \<open>The response cache\<close>

text \<open>
  Modelled from the spec: \<open>GetCache\<close> and \<open>SetCache\<close> belong to the client's
  cache, whose code is not among the sources. Following the spec's ResponseCache,
  \<open>set(key, value, ttl)\<close> overwrites the entry of \<open>key\<close> with the value and the expiry
  time \<open>now + ttl\<close>, and \<open>get(key)\<close> finds an entry only before its \<open>expiresAt\<close>: an
  entry set with \<open>ttl = 0\<close> is already expired at the next \<open>get\<close>. Times are in
  nanoseconds.
\<close>

type_synonym time = int

record 'v CacheEntry =
  entry_value :: 'v
  expiresAt :: time

type_synonym 'v ResponseCache = "string \<rightharpoonup> 'v CacheEntry"

definition GetCache :: "'v ResponseCache \<Rightarrow> string \<Rightarrow> time \<Rightarrow> 'v option" where
  "GetCache cache key now =
     (case cache key of
        None \<Rightarrow> None
      | Some e \<Rightarrow> if now < expiresAt e then Some (entry_value e) else None)"

definition SetCache :: "'v ResponseCache \<Rightarrow> string \<Rightarrow> 'v \<Rightarrow> time \<Rightarrow> time \<Rightarrow> 'v ResponseCache" where
  "SetCache cache key v ttl now = cache(key \<mapsto> \<lparr>entry_value = v, expiresAt = now + ttl\<rparr>)"

definition Hour :: time where
  "Hour = 3600 * 1000000000"

section \<open>pkg/backupify: GetAllUsers\<close>

text \<open>
  A call ends in one of four ways. \<open>Returned\<close> is a \<open>return\<close> statement with its two
  results, the cache after the call and the requests issued. \<open>Exited\<close> is
  \<open>c.Log.Fatal(err)\<close>: the logger is outside the sources, and as Go's \<open>log.Fatal\<close>
  does, the call prints the error and ends the process, so nothing after it runs.
  \<open>Panicked\<close> is a panic inside \<open>convertUserBytes\<close>, of which the program dies;
  nothing is said then about the cache, nor about how far the call gets before the program
  is gone. \<open>Unfinished\<close> is a
  pagination loop that is still running after the given number of iterations.
  The lookup reads the clock at \<open>t_get\<close> and the store at \<open>t_set\<close>; \<open>url\<close> is
  \<open>c.BuildURL(customerServices)\<close>.
\<close>

datatype outcome =
    Returned Users "error option" "Users ResponseCache" "UserPayload list"
  | Exited error "Users ResponseCache" "UserPayload list"
  | Panicked "UserPayload list"
  | Unfinished "UserPayload list"

definition GetAllUsers ::
  "nat \<Rightarrow> (string \<Rightarrow> error + float64) \<Rightarrow> provider \<Rightarrow> string \<Rightarrow> Users ResponseCache
     \<Rightarrow> time \<Rightarrow> time \<Rightarrow> outcome" where
  "GetAllUsers fuel ParseFloat p url cache t_get t_set =
     (case GetCache cache url t_get of
        Some cached \<Rightarrow> Returned cached None cache []
      | None \<Rightarrow>
          (case page_loop fuel p userPayload zero_Users [] of
             Running pl u reqs \<Rightarrow> Unfinished reqs
           | Failed err reqs \<Rightarrow> Exited err cache reqs
           | Done allUsers reqs \<Rightarrow>
               (case convertUserBytes ParseFloat allUsers False of
                  Crashed \<Rightarrow> Panicked reqs
                | Completed converted printed \<Rightarrow>
                    Returned converted None (SetCache cache url converted (3 * Hour) t_set) reqs)))"

section \<open>pkg/google: NewClient\<close>

text \<open>
  \<open>AuthCredentials\<close> with the fields \<open>NewClient\<close> reads, and the client it builds.
  The HTTP client of package \<open>requests\<close> is kept by its headers.
\<close>

record AuthCredentials =
  CICD :: bool
  Type :: string
  Scopes :: "string list"
  Subject :: string
  Credentials :: string

type_synonym Headers = "(string \<times> string) list"

record google_Client =
  Auth :: AuthCredentials
  google_BaseURL :: string
  HTTP :: "Headers option"

definition API_KEY :: string where "API_KEY = ''api_key''"
definition OAUTH_CLIENT :: string where "OAUTH_CLIENT = ''oauth_client''"
definition SERVICE_ACCOUNT :: string where "SERVICE_ACCOUNT = ''service_account''"
definition google_BaseURL_const :: string where
  "google_BaseURL_const = ''https://www.googleapis.com''"

text \<open>
  What \<open>NewClient\<close> and \<open>GenerateJWT\<close> call outside the sources: the environment
  (\<open>config.GetEnv\<close> with one argument, the empty string for an unset variable), the
  scope tables, base64 and JSON decoding, the file system, and the oauth2 library
  (a JWT configuration of type \<open>'j\<close> and the access token fetched for a subject).
\<close>

record 'j google_world =
  GetEnv :: "string \<Rightarrow> string"
  DedupeScopes :: "string list \<Rightarrow> string list"
  LoadScopes :: "string \<Rightarrow> error + string list"
  DecodeString :: "string \<Rightarrow> error + string"
  Unmarshal :: "string \<Rightarrow> error option"
  ReadFile :: "string \<Rightarrow> error + string"
  ConfigFromJSON :: "string \<Rightarrow> string list \<Rightarrow> error option"
  JWTConfigFromJSON :: "string \<Rightarrow> string list \<Rightarrow> error + 'j"
  Token :: "'j \<Rightarrow> string \<Rightarrow> error + string"

text \<open>A Go call either returns its results or panics.\<close>

datatype 'a go_result = Return 'a | GoPanic

text \<open>
  \<open>GenerateJWT\<close>: when \<open>JWTConfigFromJSON\<close> fails its configuration is \<open>nil\<close> and
  the assignment to \<open>jwtConfig.Subject\<close>, made before the error is looked at, panics;
  when the token cannot be fetched the token is \<open>nil\<close> and reading \<open>t.AccessToken\<close>
  panics. Otherwise the client is returned with a \<open>nil\<close> error.
\<close>

definition GenerateJWT ::
  "'j google_world \<Rightarrow> google_Client \<Rightarrow> string \<Rightarrow> (Headers option \<times> error option) go_result" where
  "GenerateJWT w c data =
     (case JWTConfigFromJSON w data (Scopes (Auth c)) of
        Inl err \<Rightarrow> GoPanic
      | Inr jwtConfig \<Rightarrow>
          (case Token w jwtConfig (Subject (Auth c)) of
             Inl err \<Rightarrow> GoPanic
           | Inr accessToken \<Rightarrow>
               Return (Some [(''Accept'', ''application/json''),
                             (''Content-Type'', ''application/json''),
                             (''Authorization'', ''Bearer '' @ accessToken)], None)))"

text \<open>The loop \<open>for service := range c.Auth.Scopes\<close>, leaving at the first error.\<close>

fun load_scopes :: "(string \<Rightarrow> error + string list) \<Rightarrow> string list \<Rightarrow> string list \<Rightarrow> error + string list" where
  "load_scopes load [] scopes = Inr scopes"
| "load_scopes load (service # rest) scopes =
     (case load service of
        Inl err \<Rightarrow> Inl err
      | Inr s \<Rightarrow>
          if prefix ''https://www.googleapis.com/auth/'' service
          then load_scopes load rest (scopes @ [service])
          else load_scopes load rest (scopes @ s))"

text \<open>\<open>c.HTTP, err = c.GenerateJWT(data)\<close> and the two statements after it.\<close>

definition with_jwt ::
  "'j google_world \<Rightarrow> google_Client \<Rightarrow> string \<Rightarrow> (google_Client option \<times> error option) go_result" where
  "with_jwt w c data =
     (case GenerateJWT w c data of
        GoPanic \<Rightarrow> GoPanic
      | Return (http, err) \<Rightarrow>
          (case err of
             Some e \<Rightarrow> Return (None, Some e)
           | None \<Rightarrow> Return (Some (c\<lparr>HTTP := http\<rparr>), None)))"

definition google_NewClient ::
  "'j google_world \<Rightarrow> AuthCredentials \<Rightarrow> (google_Client option \<times> error option) go_result" where
  "google_NewClient w ac =
     (case load_scopes (LoadScopes w) (DedupeScopes w (Scopes ac)) [] of
        Inl err \<Rightarrow> Return (None, Some err)
      | Inr scopes \<Rightarrow>
          (let c = \<lparr>Auth = ac\<lparr>Scopes := scopes\<rparr>, google_BaseURL = google_BaseURL_const,
                    HTTP = None\<rparr>
           in if CICD (Auth c) then
                (if Type (Auth c) = API_KEY then
                   (if length (''Bearer '' @ GetEnv w ''GOOGLE_API_KEY'') \<le> 7
                    then Return (None, Some (Err ''GOOGLE_API_KEY is not set''))
                    else Return (None, None))
                 else if Type (Auth c) = OAUTH_CLIENT then
                   (let b64 = GetEnv w ''GOOGLE_OAUTH_CLIENT''
                    in if length b64 = 0
                       then Return (None, Some (Err ''GOOGLE_OAUTH_CLIENT is not set''))
                       else (case DecodeString w b64 of
                               Inl err \<Rightarrow> Return (None, Some err)
                             | Inr decoded \<Rightarrow>
                                 (case Unmarshal w decoded of
                                    Some err \<Rightarrow> Return (None, Some err)
                                  | None \<Rightarrow> Return (None, None))))
                 else if Type (Auth c) = SERVICE_ACCOUNT then
                   (let b64 = GetEnv w ''GOOGLE_SERVICE_ACCOUNT''
                    in if length b64 = 0
                       then Return (None, Some (Err ''GOOGLE_SERVICE_ACCOUNT is not set''))
                       else (case DecodeString w b64 of
                               Inl err \<Rightarrow> Return (None, Some err)
                             | Inr decoded \<Rightarrow> with_jwt w c decoded))
                 else Return (None, None))
              else
                (if Type (Auth c) = API_KEY then
                   (if length (''Bearer '' @ Credentials (Auth c)) \<le> 7
                    then Return (None, Some (Err ''GOOGLE_API_KEY is not set''))
                    else Return (None, None))
                 else if Type (Auth c) = OAUTH_CLIENT then
                   (let file = (case ReadFile w (Credentials (Auth c)) of
                                  Inl err \<Rightarrow> []
                                | Inr file \<Rightarrow> file);
                        oauth = ConfigFromJSON w file (Scopes (Auth c))
                    in Return (None, None))
                 else if Type (Auth c) = SERVICE_ACCOUNT then
                   with_jwt w c (case ReadFile w (Credentials (Auth c)) of
                                   Inl err \<Rightarrow> []
                                 | Inr file \<Rightarrow> file)
                 else Return (None, None))))"

section \<open>pkg/okta: NewClient\<close>

text \<open>
  The package variable \<open>BaseURL\<close> is itself built by \<open>Sprintf\<close>, with \<open>%s\<close> as
  both operands. \<open>NewClient\<close> is given the three values \<open>config.GetEnv\<close> returns
  for \<open>OKTA_ORG_NAME\<close>, \<open>OKTA_BASE_URL\<close> and \<open>OKTA_API_TOKEN\<close>.
\<close>

definition okta_BaseURL :: string where
  "okta_BaseURL = Sprintf ''https://%s.%s.com/api/v1'' [''%s'', ''%s'']"

record okta_Client =
  BaseURL :: string
  HTTPClient :: Headers

definition okta_NewClient :: "string \<Rightarrow> string \<Rightarrow> string \<Rightarrow> okta_Client" where
  "okta_NewClient org_name_env base_env token =
     (let org_name = TrimPrefix org_name_env ''https://'';
          org_name = TrimPrefix org_name ''http://'';
          org_name = TrimSuffix org_name ''.okta.com'';
          base = Trim base_env ''./'';
          base = TrimSuffix base ''.com''
      in \<lparr>BaseURL = Sprintf okta_BaseURL [org_name, base],
          HTTPClient = [(''Authorization'', ''SSWS '' @ token),
                        (''Accept'', ''application/json''),
                        (''Content-Type'', ''application/json'')]\<rparr>)"

section \<open>Inputs for the checks\<close>

text \<open>
  Providers for the pagination runs. \<open>synthetic_provider recs\<close> holds the records
  \<open>recs\<close>, reports their number as \<open>recordsTotal\<close> on every page and serves the slice
  a request asks for; \<open>failing_provider\<close> fails every request. \<open>numbered n\<close> is a
  list of \<open>n\<close> records that differ pairwise.
\<close>

definition synthetic_provider :: "User list \<Rightarrow> provider" where
  "synthetic_provider recs k pl =
     Inr \<lparr>Users_Draw = 1, RecordsTotal = int (length recs), RecordsFiltered = int (length recs),
          Data = take (nat (Length pl)) (drop (nat (Start pl)) recs)\<rparr>"

definition numbered :: "nat \<Rightarrow> User list" where
  "numbered n =
     map (\<lambda>i. \<lparr>Name = [], UsedBytes = ''1 KB'', UsedBytesFloat = Finite False (real i)\<rparr>) [0..<n]"

text \<open>
  \<open>scripted_provider n pages\<close> answers the \<open>k\<close>-th request with the \<open>k\<close>-th
  scripted page (an empty page once the script has run out), always reporting the total \<open>n\<close>.
\<close>

definition scripted_provider :: "int \<Rightarrow> User list list \<Rightarrow> provider" where
  "scripted_provider n pages k pl =
     Inr \<lparr>Users_Draw = 1, RecordsTotal = n, RecordsFiltered = n,
          Data = (if k < length pages then pages ! k else [])\<rparr>"

definition failing_provider :: provider where
  "failing_provider k pl = Inl (Err ''connection refused'')"

definition empty_cache :: "Users ResponseCache" where
  "empty_cache = Map.empty"

text \<open>A provider that answers as \<open>p\<close> for the first \<open>n\<close> requests and fails afterwards.\<close>

definition failing_after :: "nat \<Rightarrow> provider \<Rightarrow> provider" where
  "failing_after n p k pl = (if k < n then p k pl else failing_provider k pl)"

text \<open>
  A record as decoded from a page: a name, the size string, and the zero value of
  \<open>float64\<close> as the derived value.
\<close>

definition table_user :: "string \<Rightarrow> string \<Rightarrow> User" where
  "table_user n s = \<lparr>Name = n, UsedBytes = s, UsedBytesFloat = Finite False 0\<rparr>"

definition batch :: "User list \<Rightarrow> Users" where
  "batch us = \<lparr>Users_Draw = 1, RecordsTotal = int (length us), RecordsFiltered = int (length us),
               Data = us\<rparr>"



text \<open>
  A world for \<open>google.NewClient\<close> in which the API key and the OAuth client variable
  are set, every scope loads, every decoding succeeds and a token is issued.
\<close>

definition test_world :: "unit google_world" where
  "test_world =
     \<lparr>GetEnv = (\<lambda>name. if name = ''GOOGLE_API_KEY'' then ''secret''
                        else if name = ''GOOGLE_OAUTH_CLIENT'' then ''e30=''
                        else if name = ''GOOGLE_SERVICE_ACCOUNT'' then ''e30=''
                        else []),
      DedupeScopes = remdups,
      LoadScopes = (\<lambda>service. Inr [service]),
      DecodeString = (\<lambda>b64. Inr ''{}''),
      Unmarshal = (\<lambda>decoded. None),
      ReadFile = (\<lambda>path. Inr ''{}''),
      ConfigFromJSON = (\<lambda>file scopes. None),
      JWTConfigFromJSON = (\<lambda>b scopes. Inr ()),
      Token = (\<lambda>cfg subject. Inr ''ya29'')\<rparr>"

text \<open>The same world, except that no scope is known to \<open>LoadScopes\<close>.\<close>

definition unknown_scope_world :: "unit google_world" where
  "unknown_scope_world = test_world\<lparr>LoadScopes := (\<lambda>service. Inl (Err ''unknown scope''))\<rparr>"

definition credentials_of :: "bool \<Rightarrow> string \<Rightarrow> AuthCredentials" where
  "credentials_of cicd ty =
     \<lparr>CICD = cicd, Type = ty, Scopes = [''Admin SDK API''], Subject = ''super.user@domain.com'',
      Credentials = ''credentials.json''\<rparr>"

fun finished :: "loop_result \<Rightarrow> bool" where
  "finished (Done u reqs) = True"
| "finished (Failed e reqs) = True"
| "finished (Running pl u reqs) = False"

fun outcome_requests :: "outcome \<Rightarrow> UserPayload list" where
  "outcome_requests (Returned u e c reqs) = reqs"
| "outcome_requests (Exited e c reqs) = reqs"
| "outcome_requests (Panicked reqs) = reqs"
| "outcome_requests (Unfinished reqs) = reqs"

section \<open>Properties of float64\<close>

text \<open>
  \<open>bit_length n\<close> is the number of binary digits of \<open>n\<close>, so \<open>ilog2 a\<close> is the
  exponent of the power of two at or below \<open>a\<close>; rounding moves a value by half a step
  of the grid at most.
\<close>

lemma bit_length_pos: "0 < n \<Longrightarrow> 0 < bit_length n"
  by (subst bit_length.simps) simp

lemma bit_length_bounds:
  "0 < n \<Longrightarrow> 2 ^ (bit_length n - 1) \<le> n \<and> n < 2 ^ bit_length n"
proof (induction n rule: bit_length.induct)
  case (1 n)
  show ?case
  proof (cases "n div 2 = 0")
    case True
    then have "n = 1" using "1.prems" by (auto simp: div_eq_0_iff)
    then show ?thesis by (simp add: bit_length.simps)
  next
    case False
    then have pos: "0 < n div 2" by simp
    let ?b = "bit_length (n div 2)"
    have ih: "2 ^ (?b - 1) \<le> n div 2 \<and> n div 2 < 2 ^ ?b"
      using "1.IH" "1.prems" pos by simp
    have b: "0 < ?b" using pos by (rule bit_length_pos)
    have bl: "bit_length n = Suc ?b"
      using "1.prems" by (subst bit_length.simps) simp
    have "(2::nat) ^ ?b = 2 * 2 ^ (?b - 1)" using b by (cases ?b) simp_all
    then have lo: "(2::nat) ^ ?b \<le> n" using ih by linarith
    have hi: "n < 2 * 2 ^ ?b" using ih by linarith
    show ?thesis using lo hi by (simp add: bl)
  qed
qed

lemma pow2_nat: "pow2 (int k) = 2 ^ k"
  by (simp add: pow2_def)

lemma pow2_neg: "pow2 (- int k) = 1 / 2 ^ k"
  by (cases k) (simp_all add: pow2_def nat_add_distrib)

lemma pow2_Suc: "pow2 (e + 1) = 2 * pow2 e"
proof (cases "0 \<le> e")
  case True
  then show ?thesis by (simp add: pow2_def nat_add_distrib)
next
  case False
  then obtain k where k: "e = - int (Suc k)" 
    by (metis Suc_pred' add.inverse_inverse nat_0_iff neg_0_le_iff_le not_gr_zero not_le_imp_less int_nat_eq order_less_imp_le zero_less_nat_eq)
  then have "e + 1 = - int k" by simp
  then show ?thesis unfolding k by (simp only: pow2_neg) simp
qed

lemma real_pow2_le: "(2::nat) ^ k \<le> n \<Longrightarrow> (2::real) ^ k \<le> real n"
  by (metis of_nat_le_iff of_nat_numeral of_nat_power)

lemma real_less_pow2: "n < (2::nat) ^ k \<Longrightarrow> real n + 1 \<le> (2::real) ^ k"
proof -
  assume "n < (2::nat) ^ k"
  then have "Suc n \<le> 2 ^ k" by simp
  then have "real (Suc n) \<le> real (2 ^ k)" by (simp only: of_nat_le_iff)
  then show ?thesis by simp
qed

lemma ilog2_bounds:
  assumes "0 < a"
  shows "pow2 (ilog2 a) \<le> a \<and> a < pow2 (ilog2 a + 1)"
proof (cases "1 \<le> a")
  case True
  let ?n = "nat \<lfloor>a\<rfloor>"
  let ?b = "bit_length ?n"
  have n: "0 < ?n" using True by simp
  have b: "2 ^ (?b - 1) \<le> ?n \<and> ?n < 2 ^ ?b"
    using n by (rule bit_length_bounds)
  have bp: "0 < ?b" using n by (rule bit_length_pos)
  have e: "ilog2 a = int (?b - 1)"
    using True bp by (simp add: ilog2_def)
  have e1: "ilog2 a + 1 = int ?b" using bp e by simp
  have na: "real ?n \<le> a" "a < real ?n + 1" using True by linarith+
  have "(2::real) ^ (?b - 1) \<le> real ?n" using b by (intro real_pow2_le) simp
  then have lo: "2 ^ (?b - 1) \<le> a" using na by linarith
  have "real ?n + 1 \<le> 2 ^ ?b" using b by (intro real_less_pow2) simp
  then have hi: "a < 2 ^ ?b" using na by linarith
  show ?thesis unfolding e1 unfolding e pow2_nat using lo hi by simp
next
  case False
  let ?m = "nat (\<lceil>1 / a\<rceil> - 1)"
  let ?b = "bit_length ?m"
  have r: "1 < 1 / a" using assms False by simp
  then have c: "2 \<le> \<lceil>1 / a\<rceil>" by linarith
  then have m: "0 < ?m" by simp
  have b: "2 ^ (?b - 1) \<le> ?m \<and> ?m < 2 ^ ?b"
    using m by (rule bit_length_bounds)
  have bp: "0 < ?b" using m by (rule bit_length_pos)
  have e: "ilog2 a = - int ?b"
    using False by (simp add: ilog2_def)
  have e1: "ilog2 a + 1 = - int (?b - 1)" using bp e by simp
  have "0 \<le> \<lceil>1 / a\<rceil> - 1" using c by linarith
  then have "real ?m = of_int (\<lceil>1 / a\<rceil> - 1)" by (rule of_nat_nat)
  then have m1: "real ?m = of_int \<lceil>1 / a\<rceil> - 1" by (simp only: of_int_diff of_int_1)
  have ma: "real ?m < 1 / a" "1 / a \<le> real ?m + 1" unfolding m1 by linarith+
  have "real ?m + 1 \<le> 2 ^ ?b" using b by (intro real_less_pow2) simp
  then have "1 / a \<le> 2 ^ ?b" using ma by linarith
  then have lo: "1 / 2 ^ ?b \<le> a"
    using assms by (simp add: field_simps)
  have "(2::real) ^ (?b - 1) \<le> real ?m" using b by (intro real_pow2_le) simp
  then have "2 ^ (?b - 1) < 1 / a" using ma by linarith
  then have hi: "a < 1 / 2 ^ (?b - 1)"
    using assms by (simp add: field_simps)
  show ?thesis unfolding e1 unfolding e pow2_neg using lo hi by simp
qed

lemma pow2_pos: "0 < pow2 e"
  by (simp add: pow2_def)

lemma round_half_even_near: "\<bar>real_of_int (round_half_even q) - q\<bar> \<le> 1 / 2"
  unfolding round_half_even_def Let_def by (auto; linarith)

lemma round_mag_near:
  assumes "0 < a"
  shows "\<bar>round_mag a - a\<bar> \<le> pow2 (max (ilog2 a) (- 1022) - 52) / 2"
proof -
  let ?ulp = "pow2 (max (ilog2 a) (- 1022) - 52)"
  have u: "0 < ?ulp" by (rule pow2_pos)
  have "\<bar>real_of_int (round_half_even (a / ?ulp)) - a / ?ulp\<bar> \<le> 1 / 2"
    by (rule round_half_even_near)
  then have "\<bar>real_of_int (round_half_even (a / ?ulp)) - a / ?ulp\<bar> * ?ulp \<le> 1 / 2 * ?ulp"
    using u by (intro mult_right_mono) simp_all
  moreover have "\<bar>real_of_int (round_half_even (a / ?ulp)) - a / ?ulp\<bar> * ?ulp =
      \<bar>real_of_int (round_half_even (a / ?ulp)) * ?ulp - a\<bar>"
    using u by (simp add: abs_mult_pos' [symmetric] field_simps del: abs_mult_pos')
  ultimately show ?thesis
    using assms by (simp add: round_mag_def Let_def)
qed

text \<open>
  Evaluating a rounding on numerals, and the values the checks need: the unit constants
  \<open>megabyte\<close>, \<open>gigabyte\<close>, \<open>terabyte\<close> are exact for both bases, as are the
  products of the conversion table; the \<open>float64\<close> nearest to 2.01 is a little above
  it, and a thousand times that value is rounded to the \<open>float64\<close> just below 2010.
\<close>

lemmas float_eval = round64_def round_mag_def round_half_even_def ilog2_def pow2_def
  bit_length.simps Let_def


lemma table_products:
  "round64 False 2000 = Finite False 2000"
  "round64 False 1500000000 = Finite False 1500000000"
  "round64 False 1000000 = Finite False 1000000"
  "round64 False 1000000000 = Finite False 1000000000"
  "round64 False 1000000000000 = Finite False 1000000000000"
  "round64 False 1048576 = Finite False 1048576"
  "round64 False 1073741824 = Finite False 1073741824"
  "round64 False 1099511627776 = Finite False 1099511627776"
  by (simp_all add: float_eval)


section \<open>Properties of the pagination loop\<close>

text \<open>
  One iteration that advances the window, one that leaves the loop, and the iteration
  at a numeral count; a run that has left the loop is the same for every larger count.
\<close>

lemma page_loop_advance:
  assumes "p (length reqs) pl = Inr users"
      and "\<not> int_wrap (RecordsTotal users - Length pl) < Length pl"
      and "Start pl \<le> RecordsTotal users"
  shows "page_loop (Suc n) p pl allUsers reqs =
           page_loop n p (pl\<lparr>Start := int_wrap (Start pl + Length pl)\<rparr>)
             (allUsers\<lparr>Data := Data allUsers @ Data users\<rparr>) (reqs @ [pl])"
  using assms by (simp add: Let_def)

lemma page_loop_break:
  assumes "p (length reqs) pl = Inr users"
      and "\<not> int_wrap (RecordsTotal users - Length pl) < Length pl"
      and "\<not> Start pl \<le> RecordsTotal users"
  shows "page_loop (Suc n) p pl allUsers reqs =
           Done (allUsers\<lparr>Users_Draw := Users_Draw users, RecordsTotal := RecordsTotal users,
                           RecordsFiltered := RecordsFiltered users\<rparr>) (reqs @ [pl])"
  using assms by (simp add: Let_def)

lemma page_loop_numeral:
  "page_loop (numeral k) p pl allUsers reqs =
     (case p (length reqs) pl of
        Inl err \<Rightarrow> Failed err (reqs @ [pl])
      | Inr users \<Rightarrow>
          (let remainingUsers = int_wrap (RecordsTotal users - Length pl);
               pl1 = (if remainingUsers < Length pl then pl\<lparr>Length := remainingUsers\<rparr> else pl)
           in if Start pl1 \<le> RecordsTotal users
              then page_loop (pred_numeral k) p (pl1\<lparr>Start := int_wrap (Start pl1 + Length pl1)\<rparr>)
                     (allUsers\<lparr>Data := Data allUsers @ Data users\<rparr>) (reqs @ [pl])
              else Done (allUsers\<lparr>Users_Draw := Users_Draw users,
                                  RecordsTotal := RecordsTotal users,
                                  RecordsFiltered := RecordsFiltered users\<rparr>)
                        (reqs @ [pl])))"
  by (simp only: numeral_eq_Suc page_loop.simps)

lemma length_numbered: "length (numbered n) = n"
  by (simp add: numbered_def)

lemma page_loop_more_fuel:
  "finished (page_loop n p pl allUsers reqs) \<Longrightarrow>
   page_loop (n + m) p pl allUsers reqs = page_loop n p pl allUsers reqs"
proof (induction n arbitrary: pl allUsers reqs)
  case 0
  then show ?case by simp
next
  case (Suc n)
  show ?case
  proof (cases "p (length reqs) pl")
    case (Inl err)
    then show ?thesis by simp
  next
    case (Inr users)
    then show ?thesis using Suc.prems Suc.IH
      by (simp add: Let_def split: if_splits)
  qed
qed

text \<open>
  Claim C1, as the code has it. The claim says three requests with offsets 0, 75, 150 and
  a last length of 30. The loop tests \<open>Start \<le> RecordsTotal\<close> after each request, so
  a provider that reports 180 records on every page is asked four times, at the offsets
  0, 75, 150 and 225; the fourth page leaves the loop and its records are dropped. The
  aggregate is the records of the first three pages in arrival order, for every larger
  iteration count as well.
\<close>

theorem pagination_180_four_requests:
  assumes r0: "p 0 userPayload = Inr u0"
      and r1: "p 1 (userPayload\<lparr>Start := 75\<rparr>) = Inr u1"
      and r2: "p 2 (userPayload\<lparr>Start := 150\<rparr>) = Inr u2"
      and r3: "p 3 (userPayload\<lparr>Start := 225\<rparr>) = Inr u3"
      and t: "RecordsTotal u0 = 180" "RecordsTotal u1 = 180" "RecordsTotal u2 = 180"
             "RecordsTotal u3 = 180"
  shows "page_loop (4 + n) p userPayload zero_Users [] =
           Done \<lparr>Users_Draw = Users_Draw u3, RecordsTotal = 180,
                 RecordsFiltered = RecordsFiltered u3,
                 Data = Data u0 @ Data u1 @ Data u2\<rparr>
                [userPayload, userPayload\<lparr>Start := 75\<rparr>, userPayload\<lparr>Start := 150\<rparr>,
                 userPayload\<lparr>Start := 225\<rparr>]"
proof -
  have s: "Start userPayload = 0" "Length userPayload = 75"
    by (simp_all add: userPayload_def)
  have four: "4 + n = Suc (Suc (Suc (Suc n)))" by simp
  have r1': "p (Suc 0) (userPayload\<lparr>Start := 75\<rparr>) = Inr u1" using r1 by simp
  have r2': "p (Suc (Suc 0)) (userPayload\<lparr>Start := 150\<rparr>) = Inr u2"
    using r2 by (simp add: numeral_2_eq_2)
  have r3': "p (Suc (Suc (Suc 0))) (userPayload\<lparr>Start := 225\<rparr>) = Inr u3"
    using r3 by (simp add: numeral_3_eq_3)
  have "page_loop (Suc (Suc (Suc (Suc n)))) p userPayload zero_Users [] =
        page_loop (Suc (Suc (Suc n))) p (userPayload\<lparr>Start := 75\<rparr>)
          (zero_Users\<lparr>Data := Data u0\<rparr>) [userPayload]"
    using page_loop_advance [of p "[]" userPayload u0 "Suc (Suc (Suc n))" zero_Users]
    by (simp add: r0 t s int_wrap_def zero_Users_def del: page_loop.simps)
  also have "\<dots> = page_loop (Suc (Suc n)) p (userPayload\<lparr>Start := 150\<rparr>)
          (zero_Users\<lparr>Data := Data u0 @ Data u1\<rparr>) [userPayload, userPayload\<lparr>Start := 75\<rparr>]"
    using page_loop_advance [of p "[userPayload]" "userPayload\<lparr>Start := 75\<rparr>" u1
        "Suc (Suc n)" "zero_Users\<lparr>Data := Data u0\<rparr>"]
    by (simp add: r1' t s int_wrap_def del: page_loop.simps)
  also have "\<dots> = page_loop (Suc n) p (userPayload\<lparr>Start := 225\<rparr>)
          (zero_Users\<lparr>Data := Data u0 @ Data u1 @ Data u2\<rparr>)
          [userPayload, userPayload\<lparr>Start := 75\<rparr>, userPayload\<lparr>Start := 150\<rparr>]"
    using page_loop_advance [of p "[userPayload, userPayload\<lparr>Start := 75\<rparr>]"
        "userPayload\<lparr>Start := 150\<rparr>" u2 "Suc n" "zero_Users\<lparr>Data := Data u0 @ Data u1\<rparr>"]
    by (simp add: r2' t s int_wrap_def del: page_loop.simps)
  also have "\<dots> = Done \<lparr>Users_Draw = Users_Draw u3, RecordsTotal = 180,
                 RecordsFiltered = RecordsFiltered u3,
                 Data = Data u0 @ Data u1 @ Data u2\<rparr>
                [userPayload, userPayload\<lparr>Start := 75\<rparr>, userPayload\<lparr>Start := 150\<rparr>,
                 userPayload\<lparr>Start := 225\<rparr>]"
    using page_loop_break [of p "[userPayload, userPayload\<lparr>Start := 75\<rparr>,
          userPayload\<lparr>Start := 150\<rparr>]"
        "userPayload\<lparr>Start := 225\<rparr>" u3 n "zero_Users\<lparr>Data := Data u0 @ Data u1 @ Data u2\<rparr>"]
    by (simp add: r3' t s int_wrap_def zero_Users_def del: page_loop.simps)
  finally show ?thesis unfolding four .
qed

text \<open>
  The run of claim C1 on the synthetic provider holding 180 numbered records: the pages
  carry 75, 75 and 30 records, and the aggregate is the 180 records in their order.
\<close>

theorem pagination_180_four_requests_witness:
  "page_loop 4 (synthetic_provider (numbered 180)) userPayload zero_Users [] =
     Done \<lparr>Users_Draw = 1, RecordsTotal = 180, RecordsFiltered = 180, Data = numbered 180\<rparr>
       [userPayload, userPayload\<lparr>Start := 75\<rparr>, userPayload\<lparr>Start := 150\<rparr>,
        userPayload\<lparr>Start := 225\<rparr>] \<and>
   length (numbered 180) = 180"
proof -
  let ?recs = "numbered 180"
  let ?page = "\<lambda>d. \<lparr>Users_Draw = 1, RecordsTotal = 180, RecordsFiltered = 180, Data = d\<rparr>"
  have pl: "Start userPayload = 0" "Length userPayload = 75"
    by (simp_all add: userPayload_def)
  have tail: "take 75 (drop 75 ?recs) @ drop 150 ?recs = drop 75 ?recs"
    using append_take_drop_id [of 75 "drop 75 ?recs"] by simp
  have split: "take 75 ?recs @ take 75 (drop 75 ?recs) @ drop 150 ?recs = ?recs"
    by (simp only: tail append_take_drop_id)
  have "page_loop (4 + 0) (synthetic_provider ?recs) userPayload zero_Users [] =
          Done \<lparr>Users_Draw = Users_Draw (?page []), RecordsTotal = 180,
                RecordsFiltered = RecordsFiltered (?page []),
                Data = Data (?page (take 75 ?recs)) @ Data (?page (take 75 (drop 75 ?recs))) @
                       Data (?page (take 75 (drop 150 ?recs)))\<rparr>
            [userPayload, userPayload\<lparr>Start := 75\<rparr>, userPayload\<lparr>Start := 150\<rparr>,
             userPayload\<lparr>Start := 225\<rparr>]"
    by (rule pagination_180_four_requests) (simp_all add: synthetic_provider_def length_numbered pl)
  then show ?thesis
    by (simp add: split length_numbered)
qed

text \<open>
  Claim C1 as stated fails on that provider: the finished run has issued four requests,
  not three, and every one of them, the last included, asks for 75 records, not 30.
\<close>

theorem pagination_180_not_three_requests:
  "finished (page_loop 4 (synthetic_provider (numbered 180)) userPayload zero_Users []) \<and>
   map Start (requests (page_loop 4 (synthetic_provider (numbered 180)) userPayload zero_Users []))
     = [0, 75, 150, 225] \<and>
   map Length (requests (page_loop 4 (synthetic_provider (numbered 180)) userPayload zero_Users []))
     = [75, 75, 75, 75]"
  by (simp add: page_loop_numeral synthetic_provider_def length_numbered userPayload_def
      int_wrap_def Let_def)

text \<open>
  A provider with no records: the first response shrinks \<open>Length\<close> to \<open>0 - 75\<close>, and
  from then on every iteration moves \<open>Start\<close> down by 75 and passes the test
  \<open>Start \<le> 0\<close>. The loop is still running after any number of iterations up to
  \<open>2^63 div 75\<close>, where the offset would wrap around.
\<close>

lemma zero_total_step:
  assumes "Start pl = - 75 * int k" and "Length pl = - 75"
      and "k + n \<le> 122978293824730344"
  shows "\<exists>pl' u reqs'. page_loop n (synthetic_provider []) pl allUsers reqs = Running pl' u reqs' \<and>
           length reqs' = length reqs + n"
  using assms
proof (induction n arbitrary: pl k allUsers reqs)
  case 0
  then show ?case by simp
next
  case (Suc n)
  let ?u = "\<lparr>Users_Draw = 1, RecordsTotal = 0, RecordsFiltered = 0, Data = []\<rparr>"
  let ?pl = "pl\<lparr>Start := int_wrap (Start pl + Length pl)\<rparr>"
  have w: "int_wrap (Start pl + Length pl) = - 75 * int (Suc k)"
    using Suc.prems by (simp add: int_wrap_def)
  have step: "page_loop (Suc n) (synthetic_provider []) pl allUsers reqs =
        page_loop n (synthetic_provider []) ?pl (allUsers\<lparr>Data := Data allUsers @ Data ?u\<rparr>)
          (reqs @ [pl])"
    by (rule page_loop_advance [where users = ?u])
       (use Suc.prems in \<open>simp_all add: synthetic_provider_def int_wrap_def\<close>)
  have "\<exists>pl' u reqs'. page_loop n (synthetic_provider []) ?pl
           (allUsers\<lparr>Data := Data allUsers @ Data ?u\<rparr>) (reqs @ [pl]) = Running pl' u reqs' \<and>
           length reqs' = length (reqs @ [pl]) + n"
    by (rule Suc.IH [where k = "Suc k"]) (use Suc.prems w in simp_all)
  then show ?case
    unfolding step by simp
qed

lemma zero_total_still_running:
  assumes "n \<le> 122978293824730344"
  shows "\<exists>pl' u reqs'. page_loop n (synthetic_provider []) userPayload zero_Users [] =
           Running pl' u reqs' \<and> length reqs' = n"
proof (cases n)
  case 0
  then show ?thesis by simp
next
  case (Suc m)
  let ?pl = "userPayload\<lparr>Length := - 75, Start := - 75\<rparr>"
  have "\<exists>pl' u reqs'. page_loop m (synthetic_provider []) ?pl
           (zero_Users\<lparr>Data := Data zero_Users @ []\<rparr>) ([] @ [userPayload]) = Running pl' u reqs' \<and>
           length reqs' = length ([] @ [userPayload]) + m"
    by (rule zero_total_step [where k = 1]) (use assms Suc in simp_all)
  then show ?thesis
    using Suc by (simp add: synthetic_provider_def Let_def userPayload_def int_wrap_def)
qed

lemma zero_total_never_returns:
  assumes "n \<le> 122978293824730344"
  shows "\<exists>reqs. GetAllUsers n ParseFloat (synthetic_provider []) url empty_cache t_get t_set =
           Unfinished reqs \<and> length reqs = n"
proof -
  obtain pl' u reqs' where
    "page_loop n (synthetic_provider []) userPayload zero_Users [] = Running pl' u reqs'"
    "length reqs' = n"
    using zero_total_still_running [OF assms] by blast
  then show ?thesis
    by (simp add: GetAllUsers_def GetCache_def empty_cache_def)
qed

text \<open>
  Claim C2 says that a provider reporting a total of 0 is asked once and the call returns
  an empty aggregate. On the code the call has issued three requests after three
  iterations, at the offsets 0, -75 and -150, and has not returned.
\<close>

theorem zero_total_keeps_requesting:
  "GetAllUsers 3 ParseFloat (synthetic_provider []) ''customerServices'' empty_cache 0 0 =
     Unfinished [userPayload, userPayload\<lparr>Start := - 75, Length := - 75\<rparr>,
                 userPayload\<lparr>Start := - 150, Length := - 75\<rparr>]"
  by (simp add: GetAllUsers_def GetCache_def empty_cache_def page_loop_numeral
      synthetic_provider_def userPayload_def int_wrap_def Let_def)

text \<open>
  Claim C7 says that the start offset never decreases from one request to the next. For
  a provider holding 10 records the first response makes \<open>Length\<close> negative
  (\<open>10 - 75\<close>), and the offsets of the first three requests are 0, -65 and -130.
\<close>

theorem start_offset_decreases:
  "map Start (requests (page_loop 3 (synthetic_provider (numbered 10)) userPayload zero_Users []))
     = [0, - 65, - 130]"
  by (simp add: page_loop_numeral synthetic_provider_def length_numbered userPayload_def
      int_wrap_def Let_def)

section \<open>Properties of GetAllUsers: failures and the cache\<close>

text \<open>
  A run only ever extends the list of requests, and the request that a provider answers
  with an error is the last one: the loop is left through \<open>Failed\<close> with that error.
\<close>

lemma requests_extend:
  "\<exists>more. requests (page_loop n p pl allUsers reqs) = reqs @ more"
proof (induction n arbitrary: pl allUsers reqs)
  case 0
  then show ?case by simp
next
  case (Suc n)
  show ?case
  proof (cases "p (length reqs) pl")
    case (Inl err)
    then show ?thesis by simp
  next
    case (Inr users)
    let ?pl1 = "if int_wrap (RecordsTotal users - Length pl) < Length pl
                then pl\<lparr>Length := int_wrap (RecordsTotal users - Length pl)\<rparr> else pl"
    show ?thesis
    proof (cases "Start ?pl1 \<le> RecordsTotal users")
      case True
      obtain more where
        "requests (page_loop n p (?pl1\<lparr>Start := int_wrap (Start ?pl1 + Length ?pl1)\<rparr>)
           (allUsers\<lparr>Data := Data allUsers @ Data users\<rparr>) (reqs @ [pl])) = (reqs @ [pl]) @ more"
        using Suc.IH by blast
      then show ?thesis using Inr True by (simp add: Let_def)
    next
      case False
      then show ?thesis using Inr by (simp add: Let_def)
    qed
  qed
qed

lemma failed_request_ends_loop:
  assumes "k < length (requests (page_loop n p pl allUsers reqs))"
      and "length reqs \<le> k"
      and "p k (requests (page_loop n p pl allUsers reqs) ! k) = Inl err"
  shows "page_loop n p pl allUsers reqs = Failed err (requests (page_loop n p pl allUsers reqs))"
  using assms
proof (induction n arbitrary: pl allUsers reqs)
  case 0
  then show ?case by simp
next
  case (Suc n)
  show ?case
  proof (cases "p (length reqs) pl")
    case (Inl e)
    then show ?thesis using Suc.prems by (auto simp: nth_append less_Suc_eq)
  next
    case (Inr users)
    let ?pl1 = "if int_wrap (RecordsTotal users - Length pl) < Length pl
                then pl\<lparr>Length := int_wrap (RecordsTotal users - Length pl)\<rparr> else pl"
    let ?next = "page_loop n p (?pl1\<lparr>Start := int_wrap (Start ?pl1 + Length ?pl1)\<rparr>)
           (allUsers\<lparr>Data := Data allUsers @ Data users\<rparr>) (reqs @ [pl])"
    show ?thesis
    proof (cases "Start ?pl1 \<le> RecordsTotal users")
      case True
      then have unfold: "page_loop (Suc n) p pl allUsers reqs = ?next"
        using Inr by (simp add: Let_def)
      obtain more where more: "requests ?next = (reqs @ [pl]) @ more"
        using requests_extend by blast
      have "k \<noteq> length reqs"
      proof
        assume "k = length reqs"
        then have "requests ?next ! k = pl" using more by (simp add: nth_append)
        then show False using Suc.prems(3) Inr \<open>k = length reqs\<close> unfolding unfold by simp
      qed
      then have "length (reqs @ [pl]) \<le> k" using Suc.prems(2) by simp
      then have "?next = Failed err (requests ?next)"
        using Suc.prems(1,3) unfolding unfold by (intro Suc.IH) auto
      then show ?thesis unfolding unfold .
    next
      case False
      then have "page_loop (Suc n) p pl allUsers reqs =
          Done (allUsers\<lparr>Users_Draw := Users_Draw users, RecordsTotal := RecordsTotal users,
                          RecordsFiltered := RecordsFiltered users\<rparr>) (reqs @ [pl])"
        using Inr by (simp add: Let_def)
      then show ?thesis using Suc.prems Inr by (auto simp: nth_append less_Suc_eq)
    qed
  qed
qed

text \<open>Every \<open>return\<close> statement of \<open>GetAllUsers\<close> has \<open>nil\<close> as its error.\<close>

lemma GetAllUsers_error_result_nil:
  "GetAllUsers fuel ParseFloat p url cache t_get t_set = Returned users e cache' reqs \<Longrightarrow> e = None"
  by (auto simp: GetAllUsers_def split: option.splits loop_result.splits convert_result.splits)

text \<open>
  Claim C3, as the code has it. When the provider answers any request of a call with an
  error, the call ends in \<open>c.Log.Fatal(err)\<close> with that error: the request is the last
  one issued, the cache is the one the call started with, and the call does not return,
  neither an aggregate nor an error result.
\<close>

theorem failed_page_exits:
  assumes out: "out = GetAllUsers fuel ParseFloat p url cache t_get t_set"
      and k: "k < length (outcome_requests out)"
      and fail: "p k (outcome_requests out ! k) = Inl err"
  shows "out = Exited err cache (outcome_requests out)"
proof (cases "GetCache cache url t_get")
  case (Some cached)
  then show ?thesis using out k by (simp add: GetAllUsers_def)
next
  case None
  let ?run = "page_loop fuel p userPayload zero_Users []"
  have reqs: "outcome_requests out = requests ?run"
    using out None
    by (simp add: GetAllUsers_def split: loop_result.splits convert_result.splits)
  have "?run = Failed err (requests ?run)"
    by (rule failed_request_ends_loop) (use k fail reqs in simp_all)
  then obtain rs where "?run = Failed err rs" by blast
  then show ?thesis using out None by (simp add: GetAllUsers_def)
qed

text \<open>
  Claim C3 at a provider that fails the first request: one request, then the exit. No
  record is converted on the way, so the parser given to the call is never asked.
\<close>

theorem failed_page_exits_witness:
  "GetAllUsers 1 (\<lambda>s. Inl (Err ''invalid syntax'')) failing_provider ''customerServices''
     empty_cache 0 0 =
     Exited (Err ''connection refused'') empty_cache [userPayload]"
proof -
  let ?out = "GetAllUsers 1 (\<lambda>s. Inl (Err ''invalid syntax'')) failing_provider ''customerServices''
      empty_cache 0 0"
  have r: "outcome_requests ?out = [userPayload]"
    by (simp add: GetAllUsers_def GetCache_def empty_cache_def failing_provider_def)
  have k: "0 < length (outcome_requests ?out)"
    by (simp only: r) simp
  have f: "failing_provider 0 (outcome_requests ?out ! 0) = Inl (Err ''connection refused'')"
    by (simp add: failing_provider_def)
  have "?out = Exited (Err ''connection refused'') empty_cache (outcome_requests ?out)"
    by (rule failed_page_exits [OF refl k f])
  then show ?thesis by (simp only: r)
qed

text \<open>
  Claim C3 as stated fails: it says that the error of a failed page comes back as the
  error result of the function. For a provider that serves one page and fails the second
  request, the call has not returned anything: it has ended the process.
\<close>

theorem failed_page_not_returned:
  "GetAllUsers 2 (\<lambda>s. Inl (Err ''invalid syntax''))
     (failing_after 1 (scripted_provider 180 []))
     ''customerServices'' empty_cache 0 0 =
     Exited (Err ''connection refused'') empty_cache [userPayload, userPayload\<lparr>Start := 75\<rparr>]"
  by (simp add: GetAllUsers_def GetCache_def empty_cache_def failing_provider_def
      failing_after_def scripted_provider_def page_loop_numeral userPayload_def int_wrap_def
      Let_def)

text \<open>
  The cache: a lookup after a store finds the value until the time to live has passed,
  and a call that found nothing under its key and returned has stored what it returns,
  for three hours from the time of the store.
\<close>

lemma GetCache_SetCache:
  "GetCache (SetCache cache key v ttl now) key t = (if t < now + ttl then Some v else None)"
  by (simp add: GetCache_def SetCache_def)

lemma fetched_result_is_stored:
  assumes "GetCache cache url t_get = None"
      and "GetAllUsers fuel ParseFloat p url cache t_get t_set = Returned users e cache' reqs"
  shows "cache' = SetCache cache url users (3 * Hour) t_set"
  using assms
  by (auto simp: GetAllUsers_def split: loop_result.splits convert_result.splits)

text \<open>A call that finds an unexpired entry under its key returns it and issues no request.\<close>

lemma cached_result_is_returned:
  assumes "cache url = Some entry" and "t_get < expiresAt entry"
  shows "GetAllUsers fuel ParseFloat p url cache t_get t_set =
           Returned (entry_value entry) None cache []"
  using assms by (simp add: GetAllUsers_def GetCache_def)

text \<open>
  Claim C4. A first call that found nothing in the cache, fetched the pages and returned
  has stored its result at the time \<open>t_set\<close> for three hours. A second call whose lookup
  happens before \<open>t_set + 3 * Hour\<close> returns the same value as the first, leaves the
  cache as it is and issues no request, whatever the provider would answer.
\<close>

theorem second_call_served_from_cache:
  assumes first: "GetAllUsers fuel ParseFloat p url cache t_get t_set = Returned users e cache' reqs"
      and miss: "GetCache cache url t_get = None"
      and ttl: "t_get2 < t_set + 3 * Hour"
  shows "GetAllUsers fuel2 ParseFloat2 p2 url cache' t_get2 t_set2 = Returned users None cache' []"
proof -
  have "cache' = SetCache cache url users (3 * Hour) t_set"
    using miss first by (rule fetched_result_is_stored)
  then have "GetCache cache' url t_get2 = Some users"
    using ttl by (simp add: GetCache_SetCache)
  then show ?thesis
    by (simp add: GetAllUsers_def)
qed

text \<open>
  Claim C4 on two calls. The first, on an empty cache, looks up at time 0, fetches four
  pages, converts the one record they carry and stores the aggregate at time 10. The
  second, two hours later on the cache the first has left, returns the same aggregate
  without a request, from a provider that would fail.
\<close>

theorem second_call_served_from_cache_witness:
  "GetAllUsers 4 (\<lambda>s. if s = ''2'' then Inr (Finite False 2) else Inl (Err ''invalid syntax''))
     (scripted_provider 180 [[table_user ''ann'' ''2 KB'']]) ''customerServices'' empty_cache 0 10 =
   Returned \<lparr>Users_Draw = 1, RecordsTotal = 180, RecordsFiltered = 180,
         Data = [(table_user ''ann'' ''2 KB'')\<lparr>UsedBytesFloat := Finite False 2000\<rparr>]\<rparr> None
     (SetCache empty_cache ''customerServices''
        \<lparr>Users_Draw = 1, RecordsTotal = 180, RecordsFiltered = 180,
         Data = [(table_user ''ann'' ''2 KB'')\<lparr>UsedBytesFloat := Finite False 2000\<rparr>]\<rparr>
        (3 * Hour) 10)
     [userPayload, userPayload\<lparr>Start := 75\<rparr>, userPayload\<lparr>Start := 150\<rparr>,
      userPayload\<lparr>Start := 225\<rparr>] \<and>
   GetAllUsers 0 (\<lambda>s. Inl (Err ''invalid syntax'')) failing_provider ''customerServices''
     (SetCache empty_cache ''customerServices''
        \<lparr>Users_Draw = 1, RecordsTotal = 180, RecordsFiltered = 180,
         Data = [(table_user ''ann'' ''2 KB'')\<lparr>UsedBytesFloat := Finite False 2000\<rparr>]\<rparr>
        (3 * Hour) 10)
     (10 + 2 * Hour) 0 =
   Returned \<lparr>Users_Draw = 1, RecordsTotal = 180, RecordsFiltered = 180,
         Data = [(table_user ''ann'' ''2 KB'')\<lparr>UsedBytesFloat := Finite False 2000\<rparr>]\<rparr> None
     (SetCache empty_cache ''customerServices''
        \<lparr>Users_Draw = 1, RecordsTotal = 180, RecordsFiltered = 180,
         Data = [(table_user ''ann'' ''2 KB'')\<lparr>UsedBytesFloat := Finite False 2000\<rparr>]\<rparr>
        (3 * Hour) 10) []"
proof -
  let ?pf = "\<lambda>s. if s = ''2'' then Inr (Finite False 2) else Inl (Err ''invalid syntax'')"
  let ?agg = "\<lparr>Users_Draw = 1, RecordsTotal = 180, RecordsFiltered = 180,
         Data = [(table_user ''ann'' ''2 KB'')\<lparr>UsedBytesFloat := Finite False 2000\<rparr>]\<rparr>"
  let ?cache = "SetCache empty_cache ''customerServices'' ?agg (3 * Hour) 10"
  have loop: "page_loop 4 (scripted_provider 180 [[table_user ''ann'' ''2 KB'']]) userPayload
        zero_Users [] =
      Done \<lparr>Users_Draw = 1, RecordsTotal = 180, RecordsFiltered = 180,
         Data = [table_user ''ann'' ''2 KB'']\<rparr>
       [userPayload, userPayload\<lparr>Start := 75\<rparr>, userPayload\<lparr>Start := 150\<rparr>,
        userPayload\<lparr>Start := 225\<rparr>]"
    by (simp add: page_loop_numeral scripted_provider_def userPayload_def zero_Users_def
        int_wrap_def Let_def)
  have conv: "convertUserBytes ?pf \<lparr>Users_Draw = 1, RecordsTotal = 180, RecordsFiltered = 180,
         Data = [table_user ''ann'' ''2 KB'']\<rparr> False =
       Completed ?agg {#ConvertedTo ''2 KB'' (Finite False 2000) ''ann''#}"
    by (simp add: convertUserBytes_def convert_task_def table_user_def slice_to_def Let_def
      Contains_def table_products)
  have miss: "GetCache empty_cache ''customerServices'' 0 = None"
    by (simp add: GetCache_def empty_cache_def)
  have first: "GetAllUsers 4 ?pf (scripted_provider 180 [[table_user ''ann'' ''2 KB'']])
      ''customerServices'' empty_cache 0 10 =
      Returned ?agg None ?cache
       [userPayload, userPayload\<lparr>Start := 75\<rparr>, userPayload\<lparr>Start := 150\<rparr>,
        userPayload\<lparr>Start := 225\<rparr>]"
    by (simp add: GetAllUsers_def miss loop conv del: page_loop.simps)
  have ttl: "10 + 2 * Hour < 10 + 3 * Hour"
    by (simp add: Hour_def)
  show ?thesis
    using first second_call_served_from_cache [OF first miss ttl] by simp
qed

section \<open>Properties of convertUserBytes\<close>





text \<open>Which unit names occur in which.\<close>


text \<open>One task on a well-formed record, and the record a completed batch returns.\<close>






text \<open>
  Claim C5 says that a record with an unparseable string such as \<open>N/A\<close> is logged and
  skipped while the other records are converted. \<open>N/A\<close> has no space, so
  \<open>strings.Index\<close> is \<open>-1\<close> and the slice expression panics before \<open>ParseFloat\<close> is
  reached: whatever \<open>ParseFloat\<close> does, the program dies in the batch with such a record
  between two good ones.
\<close>

theorem unparseable_without_space_crashes:
  "convertUserBytes ParseFloat
     (batch [table_user ''ann'' ''2 KB'', table_user ''bob'' ''N/A'', table_user ''cy'' ''1 MB''])
     False = Crashed"
  by (simp add: convertUserBytes_def convert_task_def table_user_def batch_def slice_to_def Let_def)

text \<open>
  An unparseable number in front of a space takes the error branch the code has: the
  record keeps its zero value, the error is printed, and the other record is converted.
\<close>

lemma unparseable_with_space:
  assumes "ParseFloat ''2'' = Inr (Finite False 2)" and "ParseFloat ''N/A'' = Inl err"
  shows "convertUserBytes ParseFloat
     (batch [table_user ''ann'' ''2 KB'', table_user ''bob'' ''N/A bytes'']) False =
   Completed (batch [(table_user ''ann'' ''2 KB'')\<lparr>UsedBytesFloat := Finite False 2000\<rparr>,
                     table_user ''bob'' ''N/A bytes''])
     {#ConvertedTo ''2 KB'' (Finite False 2000) ''ann'', ErrorConverting ''bob'' err#}"
  using assms
  by (simp add: convertUserBytes_def convert_task_def table_user_def batch_def slice_to_def
      Let_def Contains_def table_products)

section \<open>Properties of google.NewClient\<close>

text \<open>
  Claim C9, as the code has it. The claim leaves out the scopes, which are loaded before
  the credentials are looked at. When a scope fails to load, \<open>NewClient\<close> returns a
  \<open>nil\<close> client with that error, whatever the type. When the scopes have loaded, it
  returns a \<open>nil\<close> client and a \<open>nil\<close> error for the type \<open>api_key\<close> with a
  non-empty key (from the environment under \<open>CICD\<close>, from the credentials otherwise)
  and for the type \<open>oauth_client\<close> (under \<open>CICD\<close> with the variable set, decodable as
  base64 and as JSON; otherwise always, since the local branch only logs its errors).
  Whenever a client is returned, the type is \<open>service_account\<close>.
\<close>

theorem only_service_account_yields_client:
  "(load_scopes (LoadScopes w) (DedupeScopes w (Scopes ac)) [] = Inl err
      \<longrightarrow> google_NewClient w ac = Return (None, Some err)) \<and>
   (load_scopes (LoadScopes w) (DedupeScopes w (Scopes ac)) [] = Inr scopes
      \<longrightarrow>
      (Type ac = API_KEY \<and>
       (if CICD ac then GetEnv w ''GOOGLE_API_KEY'' else Credentials ac) \<noteq> []
         \<longrightarrow> google_NewClient w ac = Return (None, None)) \<and>
      (Type ac = OAUTH_CLIENT \<and>
       (CICD ac \<longrightarrow> GetEnv w ''GOOGLE_OAUTH_CLIENT'' \<noteq> [] \<and>
          (\<exists>decoded. DecodeString w (GetEnv w ''GOOGLE_OAUTH_CLIENT'') = Inr decoded \<and>
                     Unmarshal w decoded = None))
         \<longrightarrow> google_NewClient w ac = Return (None, None))) \<and>
   (\<forall>c e. google_NewClient w ac = Return (Some c, e) \<longrightarrow> Type ac = SERVICE_ACCOUNT)"
proof (intro conjI impI allI)
  assume "load_scopes (LoadScopes w) (DedupeScopes w (Scopes ac)) [] = Inl err"
  then show "google_NewClient w ac = Return (None, Some err)"
    by (simp add: google_NewClient_def)
next
  assume scopes: "load_scopes (LoadScopes w) (DedupeScopes w (Scopes ac)) [] = Inr scopes"
     and "Type ac = API_KEY \<and>
          (if CICD ac then GetEnv w ''GOOGLE_API_KEY'' else Credentials ac) \<noteq> []"
  then show "google_NewClient w ac = Return (None, None)"
    by (auto simp: google_NewClient_def Let_def split: if_splits)
next
  assume scopes: "load_scopes (LoadScopes w) (DedupeScopes w (Scopes ac)) [] = Inr scopes"
     and a: "Type ac = OAUTH_CLIENT \<and>
          (CICD ac \<longrightarrow> GetEnv w ''GOOGLE_OAUTH_CLIENT'' \<noteq> [] \<and>
             (\<exists>decoded. DecodeString w (GetEnv w ''GOOGLE_OAUTH_CLIENT'') = Inr decoded \<and>
                        Unmarshal w decoded = None))"
  have ne: "OAUTH_CLIENT \<noteq> API_KEY"
    by (simp add: OAUTH_CLIENT_def API_KEY_def)
  show "google_NewClient w ac = Return (None, None)"
  proof (cases "CICD ac")
    case True
    then obtain decoded where "GetEnv w ''GOOGLE_OAUTH_CLIENT'' \<noteq> []"
      "DecodeString w (GetEnv w ''GOOGLE_OAUTH_CLIENT'') = Inr decoded" "Unmarshal w decoded = None"
      using a by blast
    then show ?thesis using a True scopes ne
      by (simp add: google_NewClient_def Let_def)
  next
    case False
    then show ?thesis using a scopes ne
      by (simp add: google_NewClient_def Let_def)
  qed
next
  fix c e
  assume "google_NewClient w ac = Return (Some c, e)"
  then show "Type ac = SERVICE_ACCOUNT"
    by (auto simp: google_NewClient_def Let_def with_jwt_def
        split: sum.splits if_splits option.splits go_result.splits)
qed

text \<open>The scopes of the test credentials load in the test world and fail in the other.\<close>

lemma test_scopes:
  "load_scopes (LoadScopes test_world) (DedupeScopes test_world (Scopes (credentials_of cicd ty))) []
     = Inr [''Admin SDK API'']"
  by (simp add: test_world_def credentials_of_def)

lemma unknown_scopes:
  "load_scopes (LoadScopes unknown_scope_world)
     (DedupeScopes unknown_scope_world (Scopes (credentials_of cicd ty))) []
     = Inl (Err ''unknown scope'')"
  by (simp add: unknown_scope_world_def test_world_def credentials_of_def)

text \<open>
  Claim C9 in the test world, for both types and both settings of \<open>CICD\<close>, and in the
  world without scopes.
\<close>

theorem only_service_account_yields_client_witness:
  "google_NewClient test_world (credentials_of True API_KEY) = Return (None, None) \<and>
   google_NewClient test_world (credentials_of False API_KEY) = Return (None, None) \<and>
   google_NewClient test_world (credentials_of True OAUTH_CLIENT) = Return (None, None) \<and>
   google_NewClient test_world (credentials_of False OAUTH_CLIENT) = Return (None, None) \<and>
   google_NewClient unknown_scope_world (credentials_of True OAUTH_CLIENT) =
     Return (None, Some (Err ''unknown scope''))"
proof -
  have k1: "Type (credentials_of True API_KEY) = API_KEY \<and>
     (if CICD (credentials_of True API_KEY) then GetEnv test_world ''GOOGLE_API_KEY''
      else Credentials (credentials_of True API_KEY)) \<noteq> []"
    by (simp add: credentials_of_def test_world_def)
  have k2: "Type (credentials_of False API_KEY) = API_KEY \<and>
     (if CICD (credentials_of False API_KEY) then GetEnv test_world ''GOOGLE_API_KEY''
      else Credentials (credentials_of False API_KEY)) \<noteq> []"
    by (simp add: credentials_of_def test_world_def)
  have o1: "Type (credentials_of True OAUTH_CLIENT) = OAUTH_CLIENT \<and>
     (CICD (credentials_of True OAUTH_CLIENT) \<longrightarrow> GetEnv test_world ''GOOGLE_OAUTH_CLIENT'' \<noteq> [] \<and>
       (\<exists>decoded. DecodeString test_world (GetEnv test_world ''GOOGLE_OAUTH_CLIENT'') = Inr decoded \<and>
                  Unmarshal test_world decoded = None))"
    by (simp add: credentials_of_def test_world_def)
  have o2: "Type (credentials_of False OAUTH_CLIENT) = OAUTH_CLIENT \<and>
     (CICD (credentials_of False OAUTH_CLIENT) \<longrightarrow> GetEnv test_world ''GOOGLE_OAUTH_CLIENT'' \<noteq> [] \<and>
       (\<exists>decoded. DecodeString test_world (GetEnv test_world ''GOOGLE_OAUTH_CLIENT'') = Inr decoded \<and>
                  Unmarshal test_world decoded = None))"
    by (simp add: credentials_of_def test_world_def)
  show ?thesis
    using only_service_account_yields_client [of test_world "credentials_of True API_KEY" "Err ''unused''" "[''Admin SDK API'']"]
      only_service_account_yields_client [of test_world "credentials_of False API_KEY" "Err ''unused''" "[''Admin SDK API'']"]
      only_service_account_yields_client [of test_world "credentials_of True OAUTH_CLIENT" "Err ''unused''" "[''Admin SDK API'']"]
      only_service_account_yields_client [of test_world "credentials_of False OAUTH_CLIENT" "Err ''unused''" "[''Admin SDK API'']"]
      only_service_account_yields_client [of unknown_scope_world "credentials_of True OAUTH_CLIENT" "Err ''unknown scope''" "[]"]
      test_scopes [of True API_KEY] test_scopes [of False API_KEY]
      test_scopes [of True OAUTH_CLIENT] test_scopes [of False OAUTH_CLIENT]
      unknown_scopes [of True OAUTH_CLIENT]
      k1 k2 o1 o2
    by blast
qed

text \<open>
  Claim C9 as stated fails in the world without scopes: the type is \<open>api_key\<close>, the key
  is set, and \<open>NewClient\<close> returns the error of the scope that did not load.
\<close>

theorem api_key_with_unknown_scope:
  "google_NewClient unknown_scope_world (credentials_of True API_KEY) =
     Return (None, Some (Err ''unknown scope''))"
  by (simp add: google_NewClient_def unknown_scope_world_def test_world_def credentials_of_def)

text \<open>In the test world the type \<open>service_account\<close> does get a client.\<close>

lemma service_account_yields_client:
  "google_NewClient test_world (credentials_of True SERVICE_ACCOUNT) =
     Return (Some \<lparr>Auth = (credentials_of True SERVICE_ACCOUNT)\<lparr>Scopes := [''Admin SDK API'']\<rparr>,
                   google_BaseURL = ''https://www.googleapis.com'',
                   HTTP = Some [(''Accept'', ''application/json''),
                                (''Content-Type'', ''application/json''),
                                (''Authorization'', ''Bearer ya29'')]\<rparr>, None)"
  by (simp add: google_NewClient_def test_world_def credentials_of_def Let_def with_jwt_def
      GenerateJWT_def SERVICE_ACCOUNT_def API_KEY_def OAUTH_CLIENT_def google_BaseURL_const_def)

section \<open>Properties of okta.NewClient\<close>

text \<open>
  The package template is \<open>https://%s.%s.com/api/v1\<close>, and filling it with two strings
  puts them in the place of the two verbs.
\<close>

lemma okta_BaseURL_template: "okta_BaseURL = ''https://%s.%s.com/api/v1''"
  by (simp add: okta_BaseURL_def)

lemma Sprintf_BaseURL:
  "Sprintf okta_BaseURL [a, b] = ''https://'' @ a @ ''.'' @ b @ ''.com/api/v1''"
  by (simp add: okta_BaseURL_template)

text \<open>
  Trimming: a prefix that does not start a string does not start the string extended
  behind a character the prefix lacks; what was appended is trimmed off again; \<open>Trim\<close>
  removes a frame of cutset characters around a text that neither starts nor ends with
  one.
\<close>

lemma no_prefix_across:
  assumes "\<not> prefix p s" and "c \<notin> set p"
  shows "\<not> prefix p (s @ c # rest)"
proof
  assume "prefix p (s @ c # rest)"
  then have "\<exists>us. p = s @ us \<and> prefix us (c # rest)"
    using assms(1) unfolding prefix_append by blast
  then obtain us where us: "p = s @ us" "prefix us (c # rest)" by blast
  have "us \<noteq> []" using us(1) assms(1) by auto
  then obtain u us' where "us = u # us'" by (cases us) auto
  then have "c \<in> set p" using us by auto
  then show False using assms(2) by simp
qed

lemma TrimPrefix_append: "TrimPrefix (pre @ s) pre = s"
  by (simp add: TrimPrefix_def)

lemma TrimSuffix_append: "TrimSuffix (s @ suf) suf = s"
  by (simp add: TrimSuffix_def suffix_def)

lemma TrimPrefix_none: "\<not> prefix pre s \<Longrightarrow> TrimPrefix s pre = s"
  by (simp add: TrimPrefix_def)

lemma TrimSuffix_none: "\<not> suffix suf s \<Longrightarrow> TrimSuffix s suf = s"
  by (simp add: TrimSuffix_def)

lemma dropWhile_keep: "m \<noteq> [] \<Longrightarrow> \<not> P (hd m) \<Longrightarrow> dropWhile P (m @ t) = m @ t"
  by (cases m) auto

lemma Trim_strip:
  assumes "set lead \<subseteq> set cutset" and "set trail \<subseteq> set cutset"
      and "m \<noteq> []" and "hd m \<notin> set cutset" and "last m \<notin> set cutset"
  shows "Trim (lead @ m @ trail) cutset = m"
proof -
  let ?P = "\<lambda>c. c \<in> set cutset"
  have "dropWhile ?P (lead @ m @ trail) = dropWhile ?P (m @ trail)"
    using assms(1) by (intro dropWhile_append2) auto
  also have "\<dots> = m @ trail"
    using assms(3,4) by (rule dropWhile_keep)
  finally have front: "dropWhile ?P (lead @ m @ trail) = m @ trail" .
  have "dropWhile ?P (rev (m @ trail)) = dropWhile ?P (rev trail @ rev m @ [])"
    by simp
  also have "\<dots> = dropWhile ?P (rev m @ [])"
    using assms(2) by (intro dropWhile_append2) auto
  also have "\<dots> = rev m @ []"
    using assms(3,5) by (intro dropWhile_keep) (auto simp: hd_rev)
  finally have "dropWhile ?P (rev (m @ trail)) = rev m" by simp
  then show ?thesis
    unfolding Trim_def front by simp
qed

text \<open>
  The two normalisations on a decorated name: an organisation name without the scheme
  prefixes and the domain suffix, and a base name without surrounding dots and slashes
  and without the suffix \<open>.com\<close>, come back as they are.
\<close>

lemma org_name_normal:
  assumes pre: "pre \<in> {[], ''https://'', ''http://''}"
      and suf: "suf \<in> {[], ''.okta.com''}"
      and bare: "\<not> prefix ''https://'' org" "\<not> prefix ''http://'' org"
                "\<not> suffix ''.okta.com'' org"
  shows "TrimSuffix (TrimPrefix (TrimPrefix (pre @ org @ suf) ''https://'') ''http://'') ''.okta.com''
           = org"
proof -
  have n1: "\<not> prefix ''https://'' (org @ suf)"
    using suf bare(1) no_prefix_across [of "''https://''" org "CHR ''.''" "''okta.com''"]
    by auto
  have n2: "\<not> prefix ''http://'' (org @ suf)"
    using suf bare(2) no_prefix_across [of "''http://''" org "CHR ''.''" "''okta.com''"]
    by auto
  have "TrimPrefix (TrimPrefix (pre @ org @ suf) ''https://'') ''http://'' = org @ suf"
  proof -
    consider "pre = []" | "pre = ''https://''" | "pre = ''http://''" using pre by auto
    then show ?thesis
    proof cases
      case 1
      then show ?thesis using n1 n2 by (simp add: TrimPrefix_none)
    next
      case 2
      then show ?thesis using n2 TrimPrefix_append [of "''https://''" "org @ suf"]
        by (simp add: TrimPrefix_none)
    next
      case 3
      have "\<not> prefix ''https://'' (''http://'' @ org @ suf)" by simp
      then have "TrimPrefix (''http://'' @ org @ suf) ''https://'' = ''http://'' @ org @ suf"
        by (rule TrimPrefix_none)
      then show ?thesis using 3 TrimPrefix_append [of "''http://''" "org @ suf"] by simp
    qed
  qed
  moreover have "TrimSuffix (org @ suf) ''.okta.com'' = org"
    using suf bare(3) TrimSuffix_append [of org "''.okta.com''"] by (auto simp: TrimSuffix_none)
  ultimately show ?thesis by simp
qed

lemma base_normal:
  assumes lead: "set lead \<subseteq> set ''./''" and trail: "set trail \<subseteq> set ''./''"
      and bsuf: "bsuf \<in> {[], ''.com''}"
      and bare: "base \<noteq> []" "hd base \<notin> set ''./''" "last base \<notin> set ''./''"
                "\<not> suffix ''.com'' base"
  shows "TrimSuffix (Trim (lead @ base @ bsuf @ trail) ''./'') ''.com'' = base"
proof -
  have "Trim (lead @ (base @ bsuf) @ trail) ''./'' = base @ bsuf"
    using lead trail
  proof (rule Trim_strip)
    show "base @ bsuf \<noteq> []" using bare(1) by simp
    show "hd (base @ bsuf) \<notin> set ''./''" using bare(1,2) by simp
    show "last (base @ bsuf) \<notin> set ''./''" using bsuf bare(3) by auto
  qed
  moreover have "TrimSuffix (base @ bsuf) ''.com'' = base"
    using bsuf bare(4) TrimSuffix_append [of base "''.com''"] by (auto simp: TrimSuffix_none)
  ultimately show ?thesis by simp
qed

text \<open>
  Claim C10. For all values of the three variables the client's \<open>BaseURL\<close> is
  \<open>https://\<close>, the organisation name after the two \<open>TrimPrefix\<close> and the
  \<open>TrimSuffix\<close>, a dot, the base after \<open>Trim\<close> and \<open>TrimSuffix\<close>, and
  \<open>.com/api/v1\<close>. For a plain organisation name and a plain base name, the address
  is the same whether or not the organisation carries \<open>https://\<close> or \<open>http://\<close> in
  front and \<open>.okta.com\<close> behind, and whether or not the base carries dots and slashes
  around it and \<open>.com\<close> behind.
\<close>

theorem okta_BaseURL_normalised:
  "BaseURL (okta_NewClient org_env base_env token) =
     ''https://'' @
     TrimSuffix (TrimPrefix (TrimPrefix org_env ''https://'') ''http://'') ''.okta.com'' @
     ''.'' @ TrimSuffix (Trim base_env ''./'') ''.com'' @ ''.com/api/v1'' \<and>
   (pre \<in> {[], ''https://'', ''http://''} \<and> suf \<in> {[], ''.okta.com''} \<and>
    \<not> prefix ''https://'' org \<and> \<not> prefix ''http://'' org \<and> \<not> suffix ''.okta.com'' org \<and>
    set lead \<subseteq> set ''./'' \<and> set trail \<subseteq> set ''./'' \<and> bsuf \<in> {[], ''.com''} \<and>
    base \<noteq> [] \<and> hd base \<notin> set ''./'' \<and> last base \<notin> set ''./'' \<and> \<not> suffix ''.com'' base
    \<longrightarrow> BaseURL (okta_NewClient (pre @ org @ suf) (lead @ base @ bsuf @ trail) token) =
          ''https://'' @ org @ ''.'' @ base @ ''.com/api/v1'' \<and>
        BaseURL (okta_NewClient (pre @ org @ suf) (lead @ base @ bsuf @ trail) token) =
          BaseURL (okta_NewClient org base token))"
proof (intro conjI impI)
  show "BaseURL (okta_NewClient org_env base_env token) =
     ''https://'' @
     TrimSuffix (TrimPrefix (TrimPrefix org_env ''https://'') ''http://'') ''.okta.com'' @
     ''.'' @ TrimSuffix (Trim base_env ''./'') ''.com'' @ ''.com/api/v1''"
    by (simp add: okta_NewClient_def Let_def Sprintf_BaseURL)
next
  assume a: "pre \<in> {[], ''https://'', ''http://''} \<and> suf \<in> {[], ''.okta.com''} \<and>
    \<not> prefix ''https://'' org \<and> \<not> prefix ''http://'' org \<and> \<not> suffix ''.okta.com'' org \<and>
    set lead \<subseteq> set ''./'' \<and> set trail \<subseteq> set ''./'' \<and> bsuf \<in> {[], ''.com''} \<and>
    base \<noteq> [] \<and> hd base \<notin> set ''./'' \<and> last base \<notin> set ''./'' \<and> \<not> suffix ''.com'' base"
  have o: "TrimSuffix (TrimPrefix (TrimPrefix (pre @ org @ suf) ''https://'') ''http://'') ''.okta.com''
           = org"
    by (rule org_name_normal) (use a in blast)+
  have b: "TrimSuffix (Trim (lead @ base @ bsuf @ trail) ''./'') ''.com'' = base"
    by (rule base_normal) (use a in blast)+
  have o0: "TrimSuffix (TrimPrefix (TrimPrefix org ''https://'') ''http://'') ''.okta.com'' = org"
    using org_name_normal [of "[]" "[]" org] a by simp
  have b0: "TrimSuffix (Trim base ''./'') ''.com'' = base"
    using base_normal [of "[]" "[]" "[]" base] a by simp
  show "BaseURL (okta_NewClient (pre @ org @ suf) (lead @ base @ bsuf @ trail) token) =
          ''https://'' @ org @ ''.'' @ base @ ''.com/api/v1''"
    by (simp only: okta_NewClient_def Let_def Sprintf_BaseURL o b okta_Client.simps)
  then show "BaseURL (okta_NewClient (pre @ org @ suf) (lead @ base @ bsuf @ trail) token) =
          BaseURL (okta_NewClient org base token)"
    by (simp only: okta_NewClient_def Let_def Sprintf_BaseURL o0 b0 okta_Client.simps)
qed

text \<open>
  Claim C10 at \<open>https://acme.okta.com\<close> and \<open>./okta.com/\<close>: the same address as for
  \<open>acme\<close> and \<open>okta\<close>.
\<close>

theorem okta_BaseURL_normalised_witness:
  "BaseURL (okta_NewClient ''https://acme.okta.com'' ''./okta.com/'' ''token'') =
     ''https://acme.okta.com/api/v1'' \<and>
   BaseURL (okta_NewClient ''https://acme.okta.com'' ''./okta.com/'' ''token'') =
     BaseURL (okta_NewClient ''acme'' ''okta'' ''token'')"
proof -
  have hyp: "''https://'' \<in> {[], ''https://'', ''http://''} \<and> ''.okta.com'' \<in> {[], ''.okta.com''} \<and>
    \<not> prefix ''https://'' ''acme'' \<and> \<not> prefix ''http://'' ''acme'' \<and>
    \<not> suffix ''.okta.com'' ''acme'' \<and>
    set ''./'' \<subseteq> set ''./'' \<and> set ''/'' \<subseteq> set ''./'' \<and> ''.com'' \<in> {[], ''.com''} \<and>
    ''okta'' \<noteq> [] \<and> hd ''okta'' \<notin> set ''./'' \<and> last ''okta'' \<notin> set ''./'' \<and>
    \<not> suffix ''.com'' ''okta''"
    by (simp add: suffix_to_prefix)
  have "BaseURL (okta_NewClient (''https://'' @ ''acme'' @ ''.okta.com'')
            (''./'' @ ''okta'' @ ''.com'' @ ''/'') ''token'') =
          ''https://'' @ ''acme'' @ ''.'' @ ''okta'' @ ''.com/api/v1'' \<and>
        BaseURL (okta_NewClient (''https://'' @ ''acme'' @ ''.okta.com'')
            (''./'' @ ''okta'' @ ''.com'' @ ''/'') ''token'') =
          BaseURL (okta_NewClient ''acme'' ''okta'' ''token'')"
    using okta_BaseURL_normalised [of "''acme''" "''okta''" "''token''" "''https://''" "''.okta.com''" "''acme''"
        "''./''" "''/''" "''.com''" "''okta''"] hyp
    by blast
  then show ?thesis by auto
qed

text \<open>The defaults of the three variables give the placeholder address.\<close>

lemma okta_default_BaseURL:
  "BaseURL (okta_NewClient ''yourOktaDomain'' ''okta.com'' ''oktaApiKey'') =
     ''https://yourOktaDomain.okta.com/api/v1''"
  by (simp add: okta_NewClient_def Let_def Sprintf_BaseURL TrimPrefix_def TrimSuffix_def Trim_def
      suffix_to_prefix)

end
